theory Spec2Isabelle
  imports Complex_Main "HOL-Library.Log_Nat"
begin

section \<open>Python values used by the sources\<close>

text \<open>
  A Python \<open>str\<close> is modelled as a \<open>string\<close> whose characters are read as the code
  points U+0000 .. U+00FF. Exceptions are values of the type \<open>error\<close>; a function that
  can raise returns \<open>error + 'a\<close>, with \<open>Inl\<close> for the exception.
\<close>

datatype error =
    IndexError            \<comment> \<open>\<open>match.group(1)\<close> on a pattern with no group\<close>
  | AttributeError        \<comment> \<open>a method call on \<open>None\<close>\<close>
  | ZeroDivisionError     \<comment> \<open>\<open>width / w\<close> with \<open>w = 0\<close>\<close>
  | FileNotFoundError     \<comment> \<open>raised by \<open>load_image\<close>\<close>
  | Cv2Error              \<comment> \<open>\<open>cv2.error\<close>, a failed assertion inside OpenCV\<close>
  | OutsideFragment       \<comment> \<open>the pattern is not in the fragment of \<open>re\<close> modelled below\<close>

text \<open>\<open>str.isspace\<close> on one character, for code points below 256.\<close>

definition isspace :: "char \<Rightarrow> bool" where
  "isspace c = (let n = (of_char c :: nat) in
     (9 \<le> n \<and> n \<le> 13) \<or> (28 \<le> n \<and> n \<le> 32) \<or> n = 133 \<or> n = 160)"

definition isdigit :: "char \<Rightarrow> bool" where
  "isdigit c = (let n = (of_char c :: nat) in 48 \<le> n \<and> n \<le> 57)"

definition isalnum_ascii :: "char \<Rightarrow> bool" where
  "isalnum_ascii c = (let n = (of_char c :: nat) in
     (48 \<le> n \<and> n \<le> 57) \<or> (65 \<le> n \<and> n \<le> 90) \<or> (97 \<le> n \<and> n \<le> 122))"

text \<open>The simple lower-case mapping of Unicode, for code points below 256.\<close>

definition tolower :: "char \<Rightarrow> char" where
  "tolower c = (let n = (of_char c :: nat) in
     if (65 \<le> n \<and> n \<le> 90) \<or> (192 \<le> n \<and> n \<le> 222 \<and> n \<noteq> 215)
     then char_of (n + 32) else c)"

text \<open>The inverse mapping, for the letters whose upper case is below 256.\<close>

definition toupper :: "char \<Rightarrow> char" where
  "toupper c = (let n = (of_char c :: nat) in
     if (97 \<le> n \<and> n \<le> 122) \<or> (224 \<le> n \<and> n \<le> 254 \<and> n \<noteq> 247)
     then char_of (n - 32) else c)"

text \<open>\<open>s.strip()\<close>: leading and trailing whitespace removed.\<close>

definition strip :: "string \<Rightarrow> string" where
  "strip s = rev (dropWhile isspace (rev (dropWhile isspace s)))"

text \<open>\<open>s.replace(',', '')\<close>: every comma removed.\<close>

definition replace_comma :: "string \<Rightarrow> string" where
  "replace_comma s = filter (\<lambda>c. c \<noteq> CHR '','') s"


section \<open>A fragment of Python's \<open>re\<close> module\<close>

text \<open>
  \<open>re.search(pattern, text, re.IGNORECASE)\<close> belongs to Python's standard library. The
  functions of the repository are parametrised by it below; for concrete patterns the
  library is modelled here on the fragment the repository's own patterns are written in:
  literal characters, \<open>.\<close>, the escapes \<open>\d\<close>, \<open>\s\<close> and backslash-punctuation,
  character sets \<open>[...]\<close> with ranges, the quantifiers \<open>*\<close>, \<open>+\<close>, \<open>?\<close>, \<open>{m}\<close>,
  \<open>{m,}\<close>, \<open>{m,n}\<close> (greedy, or lazy with a trailing \<open>?\<close>) on one-character items,
  capturing groups, and \<open>(...)?\<close>. A pattern outside the fragment (malformed ones
  included) compiles to \<open>None\<close>. Matching is the backtracking search of the library:
  the leftmost start position, and there the first success in priority order.
\<close>

datatype cset = Lit char | Range char char | Digit | Space

datatype atom = AnyChar | OneOf "cset list"

datatype node =
    Rep atom nat "nat option" bool    \<comment> \<open>item, minimum, maximum, greedy\<close>
  | Group nat "node list"             \<comment> \<open>group number, body\<close>
  | OptGroup nat "node list"          \<comment> \<open>\<open>(...)?\<close>\<close>

text \<open>
  Under \<open>IGNORECASE\<close> a character matches a literal when both have the same lower
  case, and a range when its lower case is the lower case of a member of the range:
  when the range holds the character itself or its other case.
\<close>

definition in_range :: "char \<Rightarrow> char \<Rightarrow> char \<Rightarrow> bool" where
  "in_range lo hi c = ((of_char lo :: nat) \<le> of_char c \<and> (of_char c :: nat) \<le> of_char hi)"

fun in_cset :: "char \<Rightarrow> cset \<Rightarrow> bool" where
  "in_cset c (Lit x) = (tolower c = tolower x)"
| "in_cset c (Range lo hi) =
     (in_range lo hi c \<or> in_range lo hi (tolower c) \<or> in_range lo hi (toupper c))"
| "in_cset c Digit = isdigit c"
| "in_cset c Space = isspace c"

fun accepts :: "atom \<Rightarrow> char \<Rightarrow> bool" where
  "accepts AnyChar c = (c \<noteq> CHR 0x0A)"
| "accepts (OneOf items) c = list_ex (in_cset c) items"

type_synonym caps = "string option list"

text \<open>
  \<open>m_seq re s caps\<close> lists, in the order the backtracking matcher tries them, all ways
  of matching \<open>re\<close> at the start of \<open>s\<close>: the rest of the text and the groups captured.
\<close>

fun m_node :: "node \<Rightarrow> string \<Rightarrow> caps \<Rightarrow> (string \<times> caps) list"
and m_seq :: "node list \<Rightarrow> string \<Rightarrow> caps \<Rightarrow> (string \<times> caps) list" where
  "m_node (Rep a lo hi greedy) s caps =
     (let run = length (takeWhile (accepts a) s);
          top = (case hi of None \<Rightarrow> run | Some h \<Rightarrow> min h run);
          counts = [lo ..< Suc top]
      in map (\<lambda>k. (drop k s, caps)) (if greedy then rev counts else counts))"
| "m_node (Group g body) s caps =
     map (\<lambda>(s', caps'). (s', caps'[g - 1 := Some (take (length s - length s') s)]))
       (m_seq body s caps)"
| "m_node (OptGroup g body) s caps =
     map (\<lambda>(s', caps'). (s', caps'[g - 1 := Some (take (length s - length s') s)]))
       (m_seq body s caps) @ [(s, caps)]"
| "m_seq [] s caps = [(s, caps)]"
| "m_seq (x # xs) s caps = concat (map (\<lambda>(s', caps'). m_seq xs s' caps') (m_node x s caps))"

text \<open>The search: every start position from the left, the end of the text included.\<close>

fun scan :: "node list \<Rightarrow> caps \<Rightarrow> string \<Rightarrow> caps option" where
  "scan re init [] = (case m_seq re [] init of [] \<Rightarrow> None | (s', caps) # _ \<Rightarrow> Some caps)"
| "scan re init (c # s) =
     (case m_seq re (c # s) init of [] \<Rightarrow> scan re init s | (s', caps) # _ \<Rightarrow> Some caps)"

subsection \<open>Reading a pattern\<close>

datatype token = TAtom atom | TQuant nat "nat option" bool | TOpen | TClose

abbreviation BS :: char where
  "BS \<equiv> CHR 0x5C"

text \<open>
  A string literal of Isabelle cannot hold a backslash. \<open>raw ''...''\<close> stands for the
  Python literal \<open>r"..."\<close>, with \<open>~\<close> written for each backslash (no pattern of the
  repository contains \<open>~\<close>).
\<close>

definition raw :: "string \<Rightarrow> string" where
  "raw s = map (\<lambda>c. if c = CHR ''~'' then BS else c) s"

definition class_escape :: "char \<Rightarrow> cset option" where
  "class_escape e =
     (if e = CHR ''d'' then Some Digit
      else if e = CHR ''s'' then Some Space
      else if isalnum_ascii e then None
      else Some (Lit e))"

fun class_atom :: "string \<Rightarrow> (cset \<times> string) option" where
  "class_atom [] = None"
| "class_atom [c] = (if c = BS then None else Some (Lit c, []))"
| "class_atom (c # e # rest) =
     (if c = BS then map_option (\<lambda>code. (code, rest)) (class_escape e)
      else Some (Lit c, e # rest))"

lemma class_atom_shorter: "class_atom s = Some (code, rest) \<Longrightarrow> length rest < length s"
  by (induction s rule: class_atom.induct) (auto split: if_splits)

text \<open>The body of a character set, after the opening bracket.\<close>

function scan_class :: "cset list \<Rightarrow> string \<Rightarrow> (cset list \<times> string) option" where
  "scan_class acc s =
     (case s of
        [] \<Rightarrow> None
      | c # cs \<Rightarrow>
          if c = CHR '']'' then (if acc = [] then None else Some (acc, cs))
          else (case class_atom s of
                  None \<Rightarrow> None
                | Some (code1, r1) \<Rightarrow>
                    (case r1 of
                       [] \<Rightarrow> None
                     | d # r2 \<Rightarrow>
                         if d = CHR ''-'' then
                           (case r2 of
                              [] \<Rightarrow> None
                            | e # r3 \<Rightarrow>
                                if e = CHR '']'' then Some (acc @ [code1, Lit (CHR ''-'')], r3)
                                else (case class_atom r2 of
                                        None \<Rightarrow> None
                                      | Some (code2, r4) \<Rightarrow>
                                          (case (code1, code2) of
                                             (Lit lo, Lit hi) \<Rightarrow>
                                               if (of_char hi :: nat) < of_char lo then None
                                               else scan_class (acc @ [Range lo hi]) r4
                                           | _ \<Rightarrow> None)))
                         else scan_class (acc @ [code1]) r1)))"
  by pat_completeness auto
termination
  by (relation "measure (\<lambda>(acc, s). length s)")
     (auto dest!: class_atom_shorter)

declare scan_class.simps [simp del]

lemma scan_class_shorter: "scan_class acc s = Some (items, rest) \<Longrightarrow> length rest < length s"
proof (induction acc s arbitrary: items rest rule: scan_class.induct)
  case (1 acc s)
  from "1.prems" show ?case
    apply (subst (asm) scan_class.simps)
    using "1.IH"
    apply (auto split: list.splits if_splits option.splits prod.splits cset.splits
                dest: class_atom_shorter)
      apply (fastforce dest: class_atom_shorter)+
    done
qed

definition escape :: "char \<Rightarrow> atom option" where
  "escape e = map_option (\<lambda>code. OneOf [code]) (class_escape e)"

definition number :: "string \<Rightarrow> nat" where
  "number ds = foldl (\<lambda>n d. 10 * n + (of_char d - 48)) 0 ds"

text \<open>
  The inside of \<open>{m}\<close>, \<open>{m,}\<close> or \<open>{m,n}\<close>, after the opening brace. The library
  refuses a count of 4294967295 or more; a count of more than nine digits is left
  outside the fragment.
\<close>

definition scan_braces :: "string \<Rightarrow> (nat \<times> nat option \<times> string) option" where
  "scan_braces s =
     (let lo = takeWhile isdigit s; r1 = dropWhile isdigit s in
      if lo = [] \<or> 9 < length lo then None
      else (case r1 of
              [] \<Rightarrow> None
            | c # r2 \<Rightarrow>
                if c = CHR ''}'' then Some (number lo, Some (number lo), r2)
                else if c = CHR '','' then
                  (let hi = takeWhile isdigit r2; r3 = dropWhile isdigit r2 in
                   case r3 of
                     [] \<Rightarrow> None
                   | d # r4 \<Rightarrow>
                       if d \<noteq> CHR ''}'' then None
                       else if hi = [] then Some (number lo, None, r4)
                       else if 9 < length hi \<or> number hi < number lo then None
                       else Some (number lo, Some (number hi), r4))
                else None))"

text \<open>A \<open>?\<close> right after a quantifier makes it lazy.\<close>

definition lazy_suffix :: "string \<Rightarrow> bool \<times> string" where
  "lazy_suffix s =
     (case s of [] \<Rightarrow> (True, []) | c # cs \<Rightarrow> if c = CHR ''?'' then (False, cs) else (True, s))"

definition next_token :: "string \<Rightarrow> (token \<times> string) option" where
  "next_token s =
     (case s of
        [] \<Rightarrow> None
      | c # cs \<Rightarrow>
          if c = BS then
            (case cs of
               [] \<Rightarrow> None
             | e # rest \<Rightarrow> map_option (\<lambda>a. (TAtom a, rest)) (escape e))
          else if c = CHR ''['' then
            (case cs of
               [] \<Rightarrow> None
             | d # _ \<Rightarrow>
                 if d = CHR ''^'' then None
                 else map_option (\<lambda>(items, rest). (TAtom (OneOf items), rest)) (scan_class [] cs))
          else if c = CHR ''('' then
            (case cs of
               [] \<Rightarrow> None
             | d # _ \<Rightarrow> if d = CHR ''?'' then None else Some (TOpen, cs))
          else if c = CHR '')'' then Some (TClose, cs)
          else if c = CHR ''*'' then
            (let (greedy, rest) = lazy_suffix cs in Some (TQuant 0 None greedy, rest))
          else if c = CHR ''+'' then
            (let (greedy, rest) = lazy_suffix cs in Some (TQuant 1 None greedy, rest))
          else if c = CHR ''?'' then
            (let (greedy, rest) = lazy_suffix cs in Some (TQuant 0 (Some 1) greedy, rest))
          else if c = CHR ''{'' then
            (case scan_braces cs of
               None \<Rightarrow> None
             | Some (lo, hi, r) \<Rightarrow>
                 (let (greedy, rest) = lazy_suffix r in Some (TQuant lo hi greedy, rest)))
          else if c = CHR ''}'' \<or> c = CHR '']'' \<or> c = CHR ''^'' \<or> c = CHR ''$'' \<or> c = CHR ''|''
            then None
          else if c = CHR ''.'' then Some (TAtom AnyChar, cs)
          else Some (TAtom (OneOf [Lit c]), cs))"

lemma lazy_suffix_shorter: "lazy_suffix s = (g, rest) \<Longrightarrow> length rest \<le> length s"
  by (auto simp: lazy_suffix_def split: list.splits if_splits)

lemma scan_braces_shorter: "scan_braces s = Some (lo, hi, rest) \<Longrightarrow> length rest < length s"
proof -
  have a: "dropWhile isdigit t = c # r \<Longrightarrow> length r < length t" for t c r
    using length_dropWhile_le [of isdigit t] by simp
  assume "scan_braces s = Some (lo, hi, rest)"
  then show ?thesis
    by (auto simp: scan_braces_def Let_def split: list.splits if_splits dest!: a)
qed

lemma next_token_shorter: "next_token s = Some (t, rest) \<Longrightarrow> length rest < length s"
proof (cases s)
  case Nil
  assume "next_token s = Some (t, rest)"
  with Nil show ?thesis by (simp add: next_token_def)
next
  case (Cons c cs)
  have lz: "length (snd (lazy_suffix cs)) \<le> length cs"
    using lazy_suffix_shorter [of cs] by (cases "lazy_suffix cs") auto
  assume "next_token s = Some (t, rest)"
  with Cons lz show ?thesis
    unfolding next_token_def
    apply (simp split: if_splits list.splits option.splits prod.splits)
    apply (auto dest: scan_class_shorter)
    apply (drule scan_braces_shorter, drule lazy_suffix_shorter, simp)
    done
qed

function lex :: "string \<Rightarrow> token list option" where
  "lex s =
     (if s = [] then Some []
      else (case next_token s of
              None \<Rightarrow> None
            | Some (t, rest) \<Rightarrow> map_option ((#) t) (lex rest)))"
  by pat_completeness auto
termination
  by (relation "measure length") (auto dest: next_token_shorter)

declare lex.simps [simp del]

text \<open>
  \<open>build ts stack cur n\<close> assembles the tokens: \<open>stack\<close> holds the enclosing groups
  (number, items before the group), \<open>cur\<close> the items of the innermost open group, \<open>n\<close>
  the groups opened so far. Groups are numbered by their opening parenthesis.
\<close>

fun build :: "token list \<Rightarrow> (nat \<times> node list) list \<Rightarrow> node list \<Rightarrow> nat \<Rightarrow> (node list \<times> nat) option" where
  "build [] stack cur n = (if stack = [] then Some (cur, n) else None)"
| "build (TAtom a # TQuant lo hi greedy # ts) stack cur n =
     build ts stack (cur @ [Rep a lo hi greedy]) n"
| "build (TAtom a # ts) stack cur n = build ts stack (cur @ [Rep a 1 (Some 1) True]) n"
| "build (TQuant lo hi greedy # ts) stack cur n = None"
| "build (TOpen # ts) stack cur n = build ts ((Suc n, cur) # stack) [] (Suc n)"
| "build (TClose # TQuant lo hi greedy # ts) stack cur n =
     (case stack of
        [] \<Rightarrow> None
      | (g, outer) # stack' \<Rightarrow>
          if lo = 0 \<and> hi = Some 1 \<and> greedy then build ts stack' (outer @ [OptGroup g cur]) n
          else None)"
| "build (TClose # ts) stack cur n =
     (case stack of
        [] \<Rightarrow> None
      | (g, outer) # stack' \<Rightarrow> build ts stack' (outer @ [Group g cur]) n)"

text \<open>\<open>re.compile\<close> on the fragment: the items and the number of groups.\<close>

definition re_compile :: "string \<Rightarrow> (node list \<times> nat) option" where
  "re_compile pattern = (case lex pattern of None \<Rightarrow> None | Some ts \<Rightarrow> build ts [] [] 0)"

text \<open>
  \<open>re.search(pattern, text, re.IGNORECASE)\<close>: \<open>Inr None\<close> when nothing matches,
  \<open>Inr (Some groups)\<close> with \<open>groups = match.groups()\<close> (\<open>None\<close> for a group that took
  no part in the match) otherwise.
\<close>

definition re_search :: "string \<Rightarrow> string \<Rightarrow> error + string option list option" where
  "re_search pattern text =
     (case re_compile pattern of
        None \<Rightarrow> Inl OutsideFragment
      | Some (re, n) \<Rightarrow> Inr (scan re (replicate n None) text))"


section \<open>The layout parser (\<open>app/layout_parser/layout_parser.py\<close>)\<close>

text \<open>
  A \<open>dict\<close> keeps its keys in insertion order: an association list with distinct
  keys. \<open>dict_set d k v\<close> is the assignment \<open>d[k] = v\<close>.
\<close>

type_synonym ('k, 'v) dict = "('k \<times> 'v) list"

fun dict_set :: "('k, 'v) dict \<Rightarrow> 'k \<Rightarrow> 'v \<Rightarrow> ('k, 'v) dict" where
  "dict_set [] k v = [(k, v)]"
| "dict_set ((k', v') # d) k v =
     (if k' = k then (k, v) # d else (k', v') # dict_set d k v)"

record LayoutParser =
  field_patterns :: "(string, string list) dict"

definition default_field_patterns :: "(string, string list) dict" where
  "default_field_patterns =
     [(''invoice_number'',
        [raw ''Invoice~s*No[:~-]?~s*([A-Z0-9~-]+)'',
         raw ''Inv~s*#[:~-]?~s*([A-Z0-9~-]+)'']),
      (''date'',
        [raw ''Date[:~-]?~s*(~d{1,2}[-/]~d{1,2}[-/]~d{2,4})'',
         raw ''(~d{2,4}[-/]~d{1,2}[-/]~d{1,4})'']),
      (''total'',
        [raw ''Total~s*Amount[:~-]?~s*~$?([~d,]+~.~d{2})'',
         raw ''Grand~s*Total[:~-]?~s*~$?([~d,]+~.~d{2})'',
         raw ''Total[:~-]?~s*~$?([~d,]+~.~d{2})''])]"

text \<open>
  \<open>__init__\<close>: \<open>self.field_patterns = field_patterns or {...}\<close>. An empty dict is falsy,
  so it is replaced by the default too.
\<close>

definition init :: "(string, string list) dict option \<Rightarrow> LayoutParser" where
  "init fp =
     \<lparr>field_patterns =
        (case fp of
           None \<Rightarrow> default_field_patterns
         | Some d \<Rightarrow> if d = [] then default_field_patterns else d)\<rparr>"

text \<open>\<open>add_field\<close>: \<open>self.field_patterns[field_name] = patterns\<close>.\<close>

definition add_field :: "LayoutParser \<Rightarrow> string \<Rightarrow> string list \<Rightarrow> LayoutParser" where
  "add_field self field_name patterns =
     self\<lparr>field_patterns := dict_set (field_patterns self) field_name patterns\<rparr>"

text \<open>
  The library call \<open>re.search(pattern, text, re.IGNORECASE)\<close> is a parameter of the
  functions below: \<open>Inl e\<close> when it raises, \<open>Inr None\<close> for no match, \<open>Inr (Some groups)\<close>
  for a match whose \<open>match.groups()\<close> is \<open>groups\<close>.
\<close>

type_synonym searcher = "string \<Rightarrow> string \<Rightarrow> error + string option list option"

text \<open>\<open>match.group(i)\<close> for \<open>i \<ge> 1\<close>: \<open>IndexError\<close> when the pattern has no group \<open>i\<close>.\<close>

definition group :: "string option list \<Rightarrow> nat \<Rightarrow> error + string option" where
  "group groups i = (if i \<le> length groups then Inr (groups ! (i - 1)) else Inl IndexError)"

text \<open>
  The body of \<open>if match:\<close> in \<open>_extract_by_patterns\<close>. A string method called on a
  group that is \<open>None\<close> raises \<open>AttributeError\<close>.
\<close>

definition match_value :: "string option list \<Rightarrow> error + string" where
  "match_value groups =
     (if length groups = 2 then
        (case group groups 1 of
           Inl e \<Rightarrow> Inl e
         | Inr None \<Rightarrow> Inl AttributeError
         | Inr (Some g1) \<Rightarrow>
             (case group groups 2 of
                Inl e \<Rightarrow> Inl e
              | Inr None \<Rightarrow> Inl AttributeError
              | Inr (Some g2) \<Rightarrow> Inr (strip (replace_comma g1) @ ''.'' @ strip g2)))
      else
        (case group groups 1 of
           Inl e \<Rightarrow> Inl e
         | Inr None \<Rightarrow> Inl AttributeError
         | Inr (Some g1) \<Rightarrow> Inr (strip g1)))"

fun extract_by_patterns :: "searcher \<Rightarrow> string \<Rightarrow> string list \<Rightarrow> error + string option" where
  "extract_by_patterns search text [] = Inr None"
| "extract_by_patterns search text (pattern # patterns) =
     (case search pattern text of
        Inl e \<Rightarrow> Inl e
      | Inr None \<Rightarrow> extract_by_patterns search text patterns
      | Inr (Some groups) \<Rightarrow> map_sum id Some (match_value groups))"

text \<open>The loop of \<open>extract_fields\<close> over \<open>self.field_patterns.items()\<close>.\<close>

fun extract_loop ::
  "searcher \<Rightarrow> string \<Rightarrow> (string, string list) dict \<Rightarrow> (string, string option) dict
     \<Rightarrow> error + (string, string option) dict" where
  "extract_loop search text [] results = Inr results"
| "extract_loop search text ((field_name, patterns) # items) results =
     (case extract_by_patterns search text patterns of
        Inl e \<Rightarrow> Inl e
      | Inr v \<Rightarrow> extract_loop search text items (dict_set results field_name v))"

definition extract_fields ::
  "searcher \<Rightarrow> LayoutParser \<Rightarrow> string \<Rightarrow> error + (string, string option) dict" where
  "extract_fields search self text = extract_loop search text (field_patterns self) []"

text \<open>The rule did not match: the search returned without a match.\<close>

definition no_match :: "searcher \<Rightarrow> string \<Rightarrow> string \<Rightarrow> bool" where
  "no_match search text pattern = (search pattern text = Inr None)"

text \<open>
  The rule cannot make the extraction raise on this text: the search returns, and a
  match has a first group, with the groups the extractor reads taking part in it.
\<close>

definition rule_ok :: "searcher \<Rightarrow> string \<Rightarrow> string \<Rightarrow> bool" where
  "rule_ok search text pattern =
     (case search pattern text of
        Inl e \<Rightarrow> False
      | Inr None \<Rightarrow> True
      | Inr (Some groups) \<Rightarrow>
          (case groups of
             [] \<Rightarrow> False
           | [g1] \<Rightarrow> g1 \<noteq> None
           | [g1, g2] \<Rightarrow> g1 \<noteq> None \<and> g2 \<noteq> None
           | g1 # _ \<Rightarrow> g1 \<noteq> None))"

text \<open>Every rule of every field is such a rule.\<close>

definition schema_ok :: "searcher \<Rightarrow> string \<Rightarrow> LayoutParser \<Rightarrow> bool" where
  "schema_ok search text self =
     list_all (\<lambda>item. list_all (rule_ok search text) (snd item)) (field_patterns self)"

section \<open>Scenario of \<open>app/main.py\<close>\<close>

definition receipt_patterns :: "(string, string list) dict" where
  "receipt_patterns =
     [(''id'',
        [raw ''#(~d+)'',
         raw ''Receipt~s*[:~-]?~s*#?(~d+)'']),
      (''date'',
        [raw ''(~d{1,2}[-/]~d{1,2}[-/]~d{2,4})'',
         raw ''(~d{4}[-/]~d{1,2}[-/]~d{1,2})'']),
      (''total'',
        [raw ''TOTAL~s*[:~-]?~s*~$?~s*([~d,]+)~s*[.,]~s*(~d{2})'',
         raw ''total~s*[:~-]?~s*~$?~s*([~d,]+)~s*[.,]~s*(~d{2})'',
         raw ''Total~s*Amount~s*[:~-]?~s*~$?~s*([~d,]+)~s*[.,]~s*(~d{2})'',
         raw ''Total.*?~$?~s*([~d,]+)[.,]~s*(~d{2})'']),
      (''change'',
        [raw ''Change~s*Due~s*[:~-]?~s*~$?([~d,]+~.~d{2})'',
         raw ''Change~s*[:~-]?~s*~$?([~d,]+~.~d{2})'',
         raw ''change~s*[:~-]?~s*~$?([~d,]+~.~d{2})''])]"

definition parser :: LayoutParser where
  "parser = init (Some receipt_patterns)"

text \<open>The recognised text of the end-to-end scenario, with its three line feeds.\<close>

definition receipt_text :: string where
  "receipt_text =
     ''Receipt: #9876'' @ [CHR 0x0A] @ ''Date: 2025-07-15'' @ [CHR 0x0A] @
     ''Total: $123,45'' @ [CHR 0x0A] @ ''Change Due: $5.00''"

text \<open>A two-group rule for the spelled-out amount \<open>Total: $1,234 and 56 cents\<close>.\<close>

definition cents_rule :: string where
  "cents_rule = raw ''Total:~s*~$([~d,]+) and (~d{2}) cents''"


section \<open>Floating-point arithmetic of the preprocessor\<close>

text \<open>
  A Python \<open>float\<close> is an IEEE 754 double. A finite double is modelled by the rational
  number it denotes, and an operation by its exact result rounded to 53 significant
  bits, ties to even (\<open>to_double\<close>). The exponent range is not modelled: the dimensions
  of an array are below \<open>2 ^ 63\<close>, far from overflow and underflow.
\<close>

definition round_half_even :: "rat \<Rightarrow> int" where
  "round_half_even x =
     (let f = \<lfloor>x\<rfloor>; d = x - of_int f in
      if d < 1 / 2 then f else if 1 / 2 < d then f + 1 else if even f then f else f + 1)"

text \<open>The exponent \<open>e\<close> of a non-zero \<open>x\<close>: the magnitude of \<open>x\<close> is from \<open>2 powi e\<close> up to \<open>2 powi (e + 1)\<close>.\<close>

definition exponent :: "rat \<Rightarrow> int" where
  "exponent x =
     (let (a, b) = quotient_of \<bar>x\<bar>; d = bitlen a - bitlen b in
      if 2 powi d \<le> \<bar>x\<bar> then d else d - 1)"

definition to_double :: "rat \<Rightarrow> rat" where
  "to_double x =
     (if x = 0 then 0
      else (let u = 2 powi (exponent x - 52) in of_int (round_half_even (x / u)) * u))"

text \<open>\<open>int(x)\<close> on a \<open>float\<close>: truncation toward zero.\<close>

definition int_of_float :: "rat \<Rightarrow> int" where
  "int_of_float x = (if 0 \<le> x then \<lfloor>x\<rfloor> else \<lceil>x\<rceil>)"

text \<open>\<open>a / b\<close> on two \<open>int\<close>s: the quotient, correctly rounded.\<close>

definition truediv :: "int \<Rightarrow> int \<Rightarrow> error + rat" where
  "truediv a b = (if b = 0 then Inl ZeroDivisionError else Inr (to_double (of_int a / of_int b)))"

text \<open>
  \<open>int(h * ratio)\<close> for an \<open>int\<close> \<open>h\<close> and a \<open>float\<close> \<open>ratio\<close>: \<open>h\<close> is converted to a
  \<open>float\<close>, the product is rounded, and \<open>int\<close> truncates it.
\<close>

definition float_mul_int :: "int \<Rightarrow> rat \<Rightarrow> int" where
  "float_mul_int h ratio = int_of_float (to_double (to_double (of_int h) * ratio))"

text \<open>The unit round-off of the double format.\<close>

definition eps :: rat where
  "eps = 1 / 2 ^ 53"


section \<open>The image preprocessor (\<open>app/preprocess/image_preprocessor.py\<close>)\<close>

text \<open>
  An image is a numpy array of 8-bit pixels, as \<open>cv2.imread\<close> and the page rasteriser
  of \<open>main.py\<close> produce: \<open>image.shape = (rows, cols, channels)\<close>. The pixel values are
  not modelled; no claim depends on them.
\<close>

record ndarray =
  rows :: nat
  cols :: nat
  channels :: nat

text \<open>
  The four OpenCV calls of the preprocessor. OpenCV is an external library; each call is
  modelled by the assertions it makes on the shape of its arguments, by the allocation
  of its result, and by the shape of that result. Whether the machine can allocate an
  array of a given shape is a parameter, \<open>alloc\<close>; a call whose result cannot be
  allocated raises \<open>cv2.error\<close>.
\<close>

text \<open>The sides of a size are C \<open>int\<close>s.\<close>

definition fits_int :: "int \<Rightarrow> bool" where
  "fits_int x = (- 2147483648 \<le> x \<and> x \<le> 2147483647)"

text \<open>
  \<open>cv2.resize(src, dsize)\<close> refuses a \<open>dsize = (width, height)\<close> with a side that is
  not a C \<open>int\<close>; it asserts that the source is not empty and, \<open>fx\<close> and \<open>fy\<close> being
  left at 0, that both sides of \<open>dsize\<close> are positive; it allocates the result, which
  has the size \<open>dsize\<close>.
\<close>

definition cv2_resize :: "(ndarray \<Rightarrow> bool) \<Rightarrow> ndarray \<Rightarrow> int \<times> int \<Rightarrow> error + ndarray" where
  "cv2_resize alloc src dsize =
     (let (dw, dh) = dsize;
          dst = \<lparr>rows = nat dh, cols = nat dw, channels = channels src\<rparr> in
      if \<not> fits_int dw \<or> \<not> fits_int dh then Inl Cv2Error
      else if rows src = 0 \<or> cols src = 0 then Inl Cv2Error
      else if dw \<le> 0 \<or> dh \<le> 0 then Inl Cv2Error
      else if \<not> alloc dst then Inl Cv2Error
      else Inr dst)"

text \<open>\<open>cv2.cvtColor(src, cv2.COLOR_BGR2GRAY)\<close> asserts three or four channels.\<close>

definition cv2_cvtColor_BGR2GRAY :: "(ndarray \<Rightarrow> bool) \<Rightarrow> ndarray \<Rightarrow> error + ndarray" where
  "cv2_cvtColor_BGR2GRAY alloc src =
     (if rows src = 0 \<or> cols src = 0 then Inl Cv2Error
      else if channels src \<noteq> 3 \<and> channels src \<noteq> 4 then Inl Cv2Error
      else if \<not> alloc (src\<lparr>channels := 1\<rparr>) then Inl Cv2Error
      else Inr (src\<lparr>channels := 1\<rparr>))"

text \<open>\<open>cv2.GaussianBlur(src, (5, 5), 0)\<close>: the kernel size is odd and positive.\<close>

definition cv2_GaussianBlur :: "(ndarray \<Rightarrow> bool) \<Rightarrow> ndarray \<Rightarrow> error + ndarray" where
  "cv2_GaussianBlur alloc src =
     (if rows src = 0 \<or> cols src = 0 then Inl Cv2Error
      else if \<not> alloc src then Inl Cv2Error
      else Inr src)"

text \<open>
  \<open>cv2.adaptiveThreshold(src, 255, ADAPTIVE_THRESH_GAUSSIAN_C, THRESH_BINARY, 11, 2)\<close>
  asserts a single 8-bit channel; the block size 11 is odd and greater than 1.
\<close>

definition cv2_adaptiveThreshold :: "(ndarray \<Rightarrow> bool) \<Rightarrow> ndarray \<Rightarrow> error + ndarray" where
  "cv2_adaptiveThreshold alloc src =
     (if rows src = 0 \<or> cols src = 0 \<or> channels src \<noteq> 1 then Inl Cv2Error
      else if \<not> alloc src then Inl Cv2Error
      else Inr src)"

record ImagePreprocessor =
  resize_width :: "int option"

datatype image_input = Path string | Array ndarray

text \<open>\<open>load_image\<close>; \<open>cv2.imread\<close> reads the file system, a parameter here.\<close>

definition load_image :: "(string \<Rightarrow> ndarray option) \<Rightarrow> image_input \<Rightarrow> error + ndarray" where
  "load_image imread image_input =
     (case image_input of
        Path p \<Rightarrow> (case imread p of None \<Rightarrow> Inl FileNotFoundError | Some img \<Rightarrow> Inr img)
      | Array img \<Rightarrow> Inr img)"

text \<open>\<open>_resize\<close>, with \<open>h, w = image.shape[:2]\<close>.\<close>

definition resize :: "(ndarray \<Rightarrow> bool) \<Rightarrow> ndarray \<Rightarrow> int \<Rightarrow> error + ndarray" where
  "resize alloc img width =
     (let h = rows img; w = cols img in
      case truediv width (int w) of
        Inl e \<Rightarrow> Inl e
      | Inr ratio \<Rightarrow>
          (let new_height = float_mul_int (int h) ratio
           in cv2_resize alloc img (width, new_height)))"

text \<open>
  \<open>preprocess\<close>; \<open>if self.resize_width:\<close> is false for \<open>None\<close> and for 0. The file
  system (\<open>imread\<close>) and the memory of the machine (\<open>alloc\<close>) are parameters.
\<close>

definition preprocess ::
  "(string \<Rightarrow> ndarray option) \<Rightarrow> (ndarray \<Rightarrow> bool) \<Rightarrow> ImagePreprocessor \<Rightarrow> image_input
     \<Rightarrow> error + ndarray" where
  "preprocess imread alloc self image_input =
     (case load_image imread image_input of
        Inl e \<Rightarrow> Inl e
      | Inr img \<Rightarrow>
          (case (case resize_width self of
                   None \<Rightarrow> Inr img
                 | Some width \<Rightarrow> if width = 0 then Inr img else resize alloc img width) of
             Inl e \<Rightarrow> Inl e
           | Inr img' \<Rightarrow>
               (case cv2_cvtColor_BGR2GRAY alloc img' of
                  Inl e \<Rightarrow> Inl e
                | Inr gray \<Rightarrow>
                    (case cv2_GaussianBlur alloc gray of
                       Inl e \<Rightarrow> Inl e
                     | Inr denoised \<Rightarrow> cv2_adaptiveThreshold alloc denoised))))"

text \<open>The instance of \<open>app/main.py\<close>: \<open>ImagePreprocessor(resize_width=800)\<close>.\<close>

definition preprocessor :: ImagePreprocessor where
  "preprocessor = \<lparr>resize_width = Some 800\<rparr>"


section \<open>Properties of the layout parser\<close>

subsection \<open>Dictionaries and the extraction loop\<close>


lemma map_of_dict_set: "map_of (dict_set d k v) = (map_of d)(k \<mapsto> v)"
  by (induction d) (auto simp: fun_eq_iff)

lemma dict_set_keys: "fst ` set (dict_set d k v) = insert k (fst ` set d)"
  by (simp add: dom_map_of_conv_image_fst [symmetric] map_of_dict_set)

lemma dict_set_distinct: "distinct (map fst d) \<Longrightarrow> distinct (map fst (dict_set d k v))"
  by (induction d) (auto simp: dict_set_keys)

lemma extract_loop_keys:
  "extract_loop search text items acc = Inr results \<Longrightarrow>
   fst ` set results = fst ` set acc \<union> fst ` set items"
proof (induction items arbitrary: acc)
  case Nil
  then show ?case by simp
next
  case (Cons item items)
  obtain k ps where item: "item = (k, ps)" by (cases item)
  from Cons.prems item obtain v where
    v: "extract_by_patterns search text ps = Inr v" and
    rest: "extract_loop search text items (dict_set acc k v) = Inr results"
    by (auto split: sum.splits)
  from Cons.IH [OF rest] item show ?case by (simp add: dict_set_keys)
qed

lemma extract_loop_distinct:
  "extract_loop search text items acc = Inr results \<Longrightarrow> distinct (map fst acc) \<Longrightarrow>
   distinct (map fst results)"
proof (induction items arbitrary: acc)
  case Nil
  then show ?case by simp
next
  case (Cons item items)
  obtain k ps where item: "item = (k, ps)" by (cases item)
  from Cons.prems item obtain v where
    rest: "extract_loop search text items (dict_set acc k v) = Inr results"
    by (auto split: sum.splits)
  from Cons.IH [OF rest] Cons.prems(2) show ?case by (simp add: dict_set_distinct)
qed

lemma extract_loop_other:
  "extract_loop search text items acc = Inr results \<Longrightarrow> k \<notin> fst ` set items \<Longrightarrow>
   map_of results k = map_of acc k"
proof (induction items arbitrary: acc)
  case Nil
  then show ?case by simp
next
  case (Cons item items)
  obtain k' ps where item: "item = (k', ps)" by (cases item)
  from Cons.prems item obtain v where
    rest: "extract_loop search text items (dict_set acc k' v) = Inr results"
    by (auto split: sum.splits)
  from Cons.prems(2) item have "k \<noteq> k'" "k \<notin> fst ` set items" by auto
  with Cons.IH [OF rest] show ?case by (simp add: map_of_dict_set)
qed

lemma extract_loop_lookup:
  "extract_loop search text items acc = Inr results \<Longrightarrow> distinct (map fst items) \<Longrightarrow>
   (k, ps) \<in> set items \<Longrightarrow>
   \<exists>v. extract_by_patterns search text ps = Inr v \<and> map_of results k = Some v"
proof (induction items arbitrary: acc)
  case Nil
  then show ?case by simp
next
  case (Cons item items)
  obtain k' ps' where item: "item = (k', ps')" by (cases item)
  from Cons.prems(1) item obtain v where
    v: "extract_by_patterns search text ps' = Inr v" and
    rest: "extract_loop search text items (dict_set acc k' v) = Inr results"
    by (auto split: sum.splits)
  show ?case
  proof (cases "(k, ps) = item")
    case True
    with item have eq: "k = k'" "ps = ps'" by auto
    from Cons.prems(2) item have "k' \<notin> fst ` set items" by simp
    from extract_loop_other [OF rest this] have "map_of results k' = Some v"
      by (simp add: map_of_dict_set)
    with v eq show ?thesis by simp
  next
    case False
    with Cons.prems(3) have "(k, ps) \<in> set items" by simp
    moreover from Cons.prems(2) have "distinct (map fst items)" by simp
    ultimately show ?thesis using Cons.IH [OF rest] by blast
  qed
qed

lemma extract_fields_lookup:
  "extract_fields search self text = Inr results \<Longrightarrow> distinct (map fst (field_patterns self)) \<Longrightarrow>
   (k, ps) \<in> set (field_patterns self) \<Longrightarrow>
   \<exists>v. extract_by_patterns search text ps = Inr v \<and> map_of results k = Some v"
  unfolding extract_fields_def by (rule extract_loop_lookup)

lemma extract_skip_unmatched:
  "list_all (no_match search text) before \<Longrightarrow>
   extract_by_patterns search text (before @ rest) = extract_by_patterns search text rest"
  by (induction before) (auto simp: no_match_def)

lemma extract_first_match:
  "list_all (no_match search text) before \<Longrightarrow> search r text = Inr (Some groups) \<Longrightarrow>
   extract_by_patterns search text (before @ r # later) = map_sum id Some (match_value groups)"
  by (simp add: extract_skip_unmatched)

subsection \<open>The claims\<close>






text \<open>
  C2. The map returned by \<open>extract_fields\<close> has exactly the field names of the schema
  as its keys, each once, for every text and every schema.
\<close>

theorem extract_fields_keys:
  assumes "extract_fields search self text = Inr results"
  shows "fst ` set results = fst ` set (field_patterns self) \<and> distinct (map fst results)"
proof -
  from assms have loop: "extract_loop search text (field_patterns self) [] = Inr results"
    by (simp add: extract_fields_def)
  from extract_loop_keys [OF loop] extract_loop_distinct [OF loop] show ?thesis by simp
qed

theorem extract_fields_keys_witness:
  "extract_fields re_search parser [] =
     Inr [(''id'', None), (''date'', None), (''total'', None), (''change'', None)] \<and>
   fst ` set [(''id'', None :: string option), (''date'', None), (''total'', None), (''change'', None)]
     = fst ` set (field_patterns parser) \<and>
   distinct (map fst [(''id'', None :: string option), (''date'', None), (''total'', None), (''change'', None)])"
proof -
  have h: "extract_fields re_search parser [] =
     Inr [(''id'', None), (''date'', None), (''total'', None), (''change'', None)]"
    by code_simp
  from extract_fields_keys [OF h] h show ?thesis by simp
qed

text \<open>
  C3, as amended. When the first matching rule of a field has exactly two groups and
  both took part in the match, capturing \<open>a\<close> and \<open>b\<close>, the field resolves to \<open>a\<close>
  with its commas removed (and no other character), trimmed, then a full stop, then
  \<open>b\<close> trimmed. When one of the two groups took no part in the match, the extraction
  raises \<open>AttributeError\<close>.
\<close>

theorem two_group_reassembly:
  assumes "distinct (map fst (field_patterns self))"
    and "(field_name, before @ r # later) \<in> set (field_patterns self)"
    and "list_all (no_match search text) before"
    and "search r text = Inr (Some [g1, g2])"
  shows "extract_by_patterns search text (before @ r # later) =
           (case g1 of
              None \<Rightarrow> Inl AttributeError
            | Some a \<Rightarrow>
                (case g2 of
                   None \<Rightarrow> Inl AttributeError
                 | Some b \<Rightarrow>
                     Inr (Some (strip (filter (\<lambda>c. c \<noteq> CHR '','') a) @ ''.'' @ strip b)))) \<and>
         (\<forall>results. extract_fields search self text = Inr results \<longrightarrow>
            (\<exists>a b. g1 = Some a \<and> g2 = Some b \<and>
               map_of results field_name =
                 Some (Some (strip (filter (\<lambda>c. c \<noteq> CHR '','') a) @ ''.'' @ strip b))))"
proof -
  have eq: "extract_by_patterns search text (before @ r # later) =
           (case g1 of
              None \<Rightarrow> Inl AttributeError
            | Some a \<Rightarrow>
                (case g2 of
                   None \<Rightarrow> Inl AttributeError
                 | Some b \<Rightarrow>
                     Inr (Some (strip (filter (\<lambda>c. c \<noteq> CHR '','') a) @ ''.'' @ strip b))))"
    using assms(3,4)
    by (simp add: extract_first_match match_value_def group_def replace_comma_def
             split: option.splits)
  show ?thesis
  proof (intro conjI allI impI)
    show "extract_by_patterns search text (before @ r # later) =
           (case g1 of
              None \<Rightarrow> Inl AttributeError
            | Some a \<Rightarrow>
                (case g2 of
                   None \<Rightarrow> Inl AttributeError
                 | Some b \<Rightarrow>
                     Inr (Some (strip (filter (\<lambda>c. c \<noteq> CHR '','') a) @ ''.'' @ strip b))))"
      by (rule eq)
  next
    fix results
    assume "extract_fields search self text = Inr results"
    from extract_fields_lookup [OF this assms(1,2)] eq
    show "\<exists>a b. g1 = Some a \<and> g2 = Some b \<and>
               map_of results field_name =
                 Some (Some (strip (filter (\<lambda>c. c \<noteq> CHR '','') a) @ ''.'' @ strip b))"
      by (auto split: option.splits)
  qed
qed

lemma cents_search:
  "re_search cents_rule ''Total: $1,234 and 56 cents'' = Inr (Some [Some ''1,234'', Some ''56''])"
  by code_simp

lemma cents_fields:
  "extract_fields re_search (add_field (init None) ''total'' [cents_rule]) ''Total: $1,234 and 56 cents''
     = Inr [(''invoice_number'', None), (''date'', None), (''total'', Some ''1234.56'')]"
  by code_simp

theorem two_group_reassembly_witness:
  "distinct (map fst (field_patterns (add_field (init None) ''total'' [cents_rule]))) \<and>
   (''total'', [] @ cents_rule # []) \<in> set (field_patterns (add_field (init None) ''total'' [cents_rule])) \<and>
   list_all (no_match re_search ''Total: $1,234 and 56 cents'') [] \<and>
   re_search cents_rule ''Total: $1,234 and 56 cents'' = Inr (Some [Some ''1,234'', Some ''56'']) \<and>
   extract_by_patterns re_search ''Total: $1,234 and 56 cents'' ([] @ cents_rule # []) = Inr (Some ''1234.56'') \<and>
   extract_fields re_search (add_field (init None) ''total'' [cents_rule]) ''Total: $1,234 and 56 cents''
     = Inr [(''invoice_number'', None), (''date'', None), (''total'', Some ''1234.56'')] \<and>
   map_of [(''invoice_number'', None), (''date'', None), (''total'', Some ''1234.56'')] ''total''
     = Some (Some ''1234.56'')"
proof -
  have h1: "distinct (map fst (field_patterns (add_field (init None) ''total'' [cents_rule])))"
    by (simp add: add_field_def init_def default_field_patterns_def)
  have h2: "(''total'', [] @ cents_rule # []) \<in> set (field_patterns (add_field (init None) ''total'' [cents_rule]))"
    by (simp add: add_field_def init_def default_field_patterns_def)
  have h3: "list_all (no_match re_search ''Total: $1,234 and 56 cents'') []" by simp
  have v: "strip (filter (\<lambda>c. c \<noteq> CHR '','') ''1,234'') @ ''.'' @ strip ''56'' = ''1234.56''"
    by code_simp
  from two_group_reassembly [OF h1 h2 h3 cents_search] cents_fields h1 h2 h3 cents_search v
  show ?thesis by simp
qed

text \<open>
  C3 as stated fails twice. A two-group rule whose second group is optional matches
  \<open>12\<close> without it, and the extraction raises. A two-group rule whose first group
  captures \<open>1.234\<close>, grouped by full stops, keeps them: the field resolves to
  \<open>1.234.56\<close>.
\<close>

theorem two_group_counterexample:
  "re_search (raw ''(~d+)(~.~d+)?'') ''abc 12 def'' = Inr (Some [Some ''12'', None]) \<and>
   extract_fields re_search (init (Some [(''total'', [raw ''(~d+)(~.~d+)?''])])) ''abc 12 def''
     = Inl AttributeError \<and>
   re_search (raw ''Total:~s*([~d.]+),(~d{2})'') ''Total: 1.234,56''
     = Inr (Some [Some ''1.234'', Some ''56'']) \<and>
   extract_fields re_search (init (Some [(''total'', [raw ''Total:~s*([~d.]+),(~d{2})''])]))
     ''Total: 1.234,56''
     = Inr [(''total'', Some ''1.234.56'')]"
  by code_simp





text \<open>
  C5, as amended. A rule with no capture group never yields a value: when it is the first
  rule to match, the extraction raises \<open>IndexError\<close>. A rule with three or more groups
  is read as a one-group rule: the field resolves to group 1 trimmed
  (\<open>AttributeError\<close> when group 1 took no part in the match).
\<close>

theorem other_group_counts:
  assumes "list_all (no_match search text) before"
    and "search r text = Inr (Some groups)"
    and "length groups \<noteq> 1" and "length groups \<noteq> 2"
  shows "extract_by_patterns search text (before @ r # later) =
           (case groups of
              [] \<Rightarrow> Inl IndexError
            | g # _ \<Rightarrow> (case g of None \<Rightarrow> Inl AttributeError | Some s \<Rightarrow> Inr (Some (strip s))))"
  using assms
  by (cases groups) (auto simp: extract_first_match match_value_def group_def split: option.splits)

lemma no_group_search: "re_search (raw ''Total'') ''Total: $5.00'' = Inr (Some [])"
  by code_simp

theorem other_group_counts_witness:
  "list_all (no_match re_search ''Total: $5.00'') [] \<and>
   re_search (raw ''Total'') ''Total: $5.00'' = Inr (Some []) \<and>
   length ([] :: string option list) \<noteq> 1 \<and> length ([] :: string option list) \<noteq> 2 \<and>
   extract_by_patterns re_search ''Total: $5.00'' ([] @ raw ''Total'' # []) = Inl IndexError"
proof -
  have h1: "list_all (no_match re_search ''Total: $5.00'') []" by simp
  have h3: "length ([] :: string option list) \<noteq> 1" by simp
  have h4: "length ([] :: string option list) \<noteq> 2" by simp
  from other_group_counts [OF h1 no_group_search h3 h4] h1 no_group_search
  show ?thesis by simp
qed

text \<open>
  C5 as stated fails: a rule with three groups resolves the field to its first group.
\<close>

theorem three_groups_counterexample:
  "re_search (raw ''(~d{4})-(~d{2})-(~d{2})'') ''Date: 2025-07-15''
     = Inr (Some [Some ''2025'', Some ''07'', Some ''15'']) \<and>
   extract_fields re_search (add_field (init None) ''date'' [raw ''(~d{4})-(~d{2})-(~d{2})''])
     ''Date: 2025-07-15''
     = Inr [(''invoice_number'', None), (''date'', Some ''2025''), (''total'', None)]"
  by code_simp

text \<open>
  C6, as amended. \<open>extract_fields\<close> returns normally whenever every rule of the schema,
  searched in the text, returns and either fails to match or matches with a first
  group, the groups the extractor reads having taken part in the match.
\<close>

theorem extract_fields_returns:
  assumes "schema_ok search text self"
  shows "\<exists>results. extract_fields search self text = Inr results"
proof -
  have by_patterns: "list_all (rule_ok search text) ps \<Longrightarrow>
      \<exists>v. extract_by_patterns search text ps = Inr v" for ps
  proof (induction ps)
    case Nil
    then show ?case by simp
  next
    case (Cons p ps)
    then show ?case
      by (auto simp: rule_ok_def match_value_def group_def
               split: sum.splits option.splits list.splits)
  qed
  have loop: "list_all (\<lambda>item. list_all (rule_ok search text) (snd item)) items \<Longrightarrow>
      \<exists>results. extract_loop search text items acc = Inr results" for items acc
  proof (induction items arbitrary: acc)
    case Nil
    then show ?case by simp
  next
    case (Cons item items)
    obtain k ps where item: "item = (k, ps)" by (cases item)
    with Cons.prems obtain v where "extract_by_patterns search text ps = Inr v"
      using by_patterns [of ps] by auto
    with Cons item show ?case by simp
  qed
  from assms show ?thesis
    unfolding schema_ok_def extract_fields_def by (rule loop)
qed

lemma short_schema_ok: "schema_ok re_search ''#12 total 3,50'' parser"
  by code_simp

theorem extract_fields_returns_witness:
  "schema_ok re_search ''#12 total 3,50'' parser \<and>
   (\<exists>results. extract_fields re_search parser ''#12 total 3,50'' = Inr results)"
  using extract_fields_returns [OF short_schema_ok] short_schema_ok by simp

text \<open>
  C6 as stated fails: after \<open>add_field\<close> of a rule without a group, a text the rule
  matches makes \<open>extract_fields\<close> raise \<open>IndexError\<close>.
\<close>

theorem no_group_rule_counterexample:
  "extract_fields re_search (add_field (init None) ''store'' [raw ''Walmart'']) ''Walmart''
     = Inl IndexError"
  by code_simp

text \<open>A group that took no part in the match raises too.\<close>

lemma optional_group_raises:
  "extract_fields re_search (add_field (init None) ''total'' [raw ''Total:~s*(~d+)?'']) ''Total: n/a''
     = Inl AttributeError"
  by code_simp

text \<open>
  C7. On the text of the end-to-end scenario the receipt schema of \<open>main.py\<close> yields the
  id, the total and the change of the claim, and the date \<open>25-07-15\<close>: the first date
  rule matches inside \<open>2025-07-15\<close>, so the rule written for that format is never
  tried.
\<close>

theorem receipt_scenario:
  "extract_fields re_search parser receipt_text =
     Inr [(''id'', Some ''9876''), (''date'', Some ''25-07-15''),
          (''total'', Some ''123.45''), (''change'', Some ''5.00'')]"
  by code_simp

text \<open>
  C10. A one-group rule whose group captures only whitespace resolves its field to the
  empty string, a value that is present in the map and is not \<open>None\<close>.
\<close>

theorem empty_string_value:
  "re_search (raw ''Note:(~s*)'') ''Note:  '' = Inr (Some [Some ''  '']) \<and>
   extract_fields re_search (init (Some [(''note'', [raw ''Note:(~s*)''])])) ''Note:  ''
     = Inr [(''note'', Some [])] \<and>
   Some ([] :: string) \<noteq> None"
  by code_simp

section \<open>Properties of the image preprocessor\<close>

subsection \<open>Rounding errors\<close>

lemma round_half_even_close: "\<bar>of_int (round_half_even x) - x\<bar> \<le> 1 / 2"
  unfolding round_half_even_def Let_def
  by (auto simp: abs_if) linarith+

lemma exponent_le:
  assumes "0 < x"
  shows "2 powi (exponent x) \<le> x"
proof -
  obtain a b where q: "quotient_of x = (a, b)" by (cases "quotient_of x")
  then have b: "0 < b" and x: "x = of_int a / of_int b"
    using quotient_of_denom_pos [OF q] quotient_of_div [OF q] by auto
  with assms have a: "0 < a" by (simp add: zero_less_divide_iff)
  let ?d = "bitlen a - bitlen b"
  show ?thesis
  proof (cases "2 powi ?d \<le> x")
    case True
    with assms q show ?thesis by (simp add: exponent_def)
  next
    case False
    have la: "(2::int) ^ nat (bitlen a - 1) \<le> a" and lb: "b < 2 ^ nat (bitlen b)"
      using bitlen_bounds [OF a] bitlen_bounds [OF b] by auto
    have la1: "1 \<le> bitlen a" and lb0: "0 \<le> bitlen b"
      using a bitlen_nonneg [of b] bitlen_eq_zero_iff [of a] bitlen_nonneg [of a] by auto
    have ra: "(2::rat) powi (bitlen a - 1) \<le> of_int a"
    proof -
      have "(2::rat) powi (bitlen a - 1) = 2 ^ nat (bitlen a - 1)"
        using la1 by (simp add: power_int_def)
      also have "\<dots> = of_int (2 ^ nat (bitlen a - 1))" by simp
      also have "\<dots> \<le> of_int a" using la by (simp only: of_int_le_iff)
      finally show ?thesis .
    qed
    have rb: "of_int b \<le> (2::rat) powi (bitlen b)"
    proof -
      have "(of_int b :: rat) \<le> of_int (2 ^ nat (bitlen b))" using lb by (simp only: of_int_le_iff)
      also have "\<dots> = 2 powi (bitlen b)" using lb0 by (simp add: power_int_def)
      finally show ?thesis .
    qed
    have "(2::rat) powi (?d - 1) = 2 powi (bitlen a - 1) / 2 powi (bitlen b)"
      by (simp add: power_int_diff)
    also have "\<dots> \<le> of_int a / 2 powi (bitlen b)"
      using ra by (simp add: divide_right_mono)
    also have "\<dots> \<le> of_int a / of_int b"
      using rb a b by (simp add: divide_left_mono)
    finally have "(2::rat) powi (?d - 1) \<le> x" using x by simp
    with False assms q show ?thesis by (simp add: exponent_def)
  qed
qed

lemma exponent_gt:
  assumes "0 < x"
  shows "x < 2 powi (exponent x + 1)"
proof -
  obtain a b where q: "quotient_of x = (a, b)" by (cases "quotient_of x")
  then have b: "0 < b" and x: "x = of_int a / of_int b"
    using quotient_of_denom_pos [OF q] quotient_of_div [OF q] by auto
  with assms have a: "0 < a" by (simp add: zero_less_divide_iff)
  let ?d = "bitlen a - bitlen b"
  show ?thesis
  proof (cases "2 powi ?d \<le> x")
    case False
    with assms q show ?thesis by (simp add: exponent_def)
  next
    case True
    have la: "a < 2 ^ nat (bitlen a)" and lb: "(2::int) ^ nat (bitlen b - 1) \<le> b"
      using bitlen_bounds [OF a] bitlen_bounds [OF b] by auto
    have la0: "0 \<le> bitlen a" and lb1: "1 \<le> bitlen b"
      using b bitlen_nonneg [of a] bitlen_eq_zero_iff [of b] bitlen_nonneg [of b] by auto
    have ra: "of_int a < (2::rat) powi (bitlen a)"
    proof -
      have "(of_int a :: rat) < of_int (2 ^ nat (bitlen a))" using la by (simp only: of_int_less_iff)
      also have "\<dots> = 2 powi (bitlen a)" using la0 by (simp add: power_int_def)
      finally show ?thesis .
    qed
    have rb: "(2::rat) powi (bitlen b - 1) \<le> of_int b"
    proof -
      have "(2::rat) powi (bitlen b - 1) = of_int (2 ^ nat (bitlen b - 1))"
        using lb1 by (simp add: power_int_def)
      also have "\<dots> \<le> of_int b" using lb by (simp only: of_int_le_iff)
      finally show ?thesis .
    qed
    have "x = of_int a / of_int b" by (rule x)
    also have "\<dots> < 2 powi (bitlen a) / of_int b"
      using ra b by (simp add: divide_strict_right_mono)
    also have "\<dots> \<le> 2 powi (bitlen a) / 2 powi (bitlen b - 1)"
      using rb b by (intro divide_left_mono) (auto intro!: mult_pos_pos)
    also have "\<dots> = 2 powi (?d + 1)"
      by (simp add: power_int_diff power_int_add)
    finally have "x < 2 powi (?d + 1)" .
    with True assms q show ?thesis by (simp add: exponent_def)
  qed
qed

text \<open>Rounding to a double changes a value by at most the unit round-off, relatively.\<close>

lemma to_double_close:
  assumes "0 \<le> x"
  shows "\<bar>to_double x - x\<bar> \<le> x * eps"
proof (cases "x = 0")
  case True
  then show ?thesis by (simp add: to_double_def)
next
  case False
  with assms have pos: "0 < x" by simp
  define u :: rat where "u = 2 powi (exponent x - 52)"
  have u: "0 < u" by (simp add: u_def)
  have td: "to_double x = of_int (round_half_even (x / u)) * u"
    using False by (simp add: to_double_def u_def Let_def)
  have "to_double x - x = (of_int (round_half_even (x / u)) - x / u) * u"
    using u by (simp add: td field_simps)
  then have "\<bar>to_double x - x\<bar> = \<bar>of_int (round_half_even (x / u)) - x / u\<bar> * u"
    using u by (simp add: abs_mult)
  also have "\<dots> \<le> (1 / 2) * u"
    using round_half_even_close [of "x / u"] u by (simp add: mult_right_mono)
  also have "\<dots> = 2 powi (exponent x) * eps"
    by (simp add: u_def eps_def power_int_diff)
  also have "\<dots> \<le> x * eps"
    using exponent_le [OF pos] by (simp add: eps_def divide_right_mono)
  finally show ?thesis .
qed

lemma to_double_bounds:
  assumes "0 \<le> x"
  shows "x * (1 - eps) \<le> to_double x" and "to_double x \<le> x * (1 + eps)"
  using to_double_close [OF assms] by (simp_all add: abs_le_iff algebra_simps)

lemma eps_cube: "(1 + eps) * (1 + eps) * (1 + eps) \<le> 1 + 4 * eps"
  "1 - 4 * eps \<le> (1 - eps) * (1 - eps) * (1 - eps)" "0 \<le> 1 - eps" "0 \<le> eps"
  by (simp_all add: eps_def)

text \<open>Two conversions and one product: three roundings.\<close>

lemma product_close:
  assumes a: "0 \<le> a" and b: "0 \<le> b"
  shows "\<bar>to_double (to_double a * to_double b) - a * b\<bar> \<le> 4 * eps * (a * b)"
proof -
  define a' where "a' = to_double a"
  define b' where "b' = to_double b"
  have a': "a * (1 - eps) \<le> a'" "a' \<le> a * (1 + eps)"
    using to_double_bounds [OF a] by (simp_all add: a'_def)
  have b': "b * (1 - eps) \<le> b'" "b' \<le> b * (1 + eps)"
    using to_double_bounds [OF b] by (simp_all add: b'_def)
  have a0: "0 \<le> a * (1 - eps)" and b0: "0 \<le> b * (1 - eps)"
    using a b eps_cube(3) by simp_all
  then have a'0: "0 \<le> a'" and b'0: "0 \<le> b'" using a' b' by linarith+
  have y0: "0 \<le> a' * b'" using a'0 b'0 by simp
  have yu: "a' * b' \<le> (a * (1 + eps)) * (b * (1 + eps))"
    using a' b' a'0 b'0 a b eps_cube(4) by (intro mult_mono) auto
  have yl: "(a * (1 - eps)) * (b * (1 - eps)) \<le> a' * b'"
    using a' b' a0 b0 a'0 by (intro mult_mono) auto
  define p where "p = to_double (a' * b')"
  have p: "(a' * b') * (1 - eps) \<le> p" "p \<le> (a' * b') * (1 + eps)"
    using to_double_bounds [OF y0] by (simp_all add: p_def)
  have ab: "0 \<le> a * b" using a b by simp
  have "p \<le> ((a * (1 + eps)) * (b * (1 + eps))) * (1 + eps)"
    using p(2) yu eps_cube(4) by (meson add_nonneg_nonneg mult_right_mono order_trans zero_le_one)
  also have "\<dots> = (a * b) * ((1 + eps) * (1 + eps) * (1 + eps))" by (simp add: algebra_simps)
  also have "\<dots> \<le> (a * b) * (1 + 4 * eps)"
    using ab eps_cube(1) by (rule mult_left_mono [rotated])
  finally have up: "p - a * b \<le> 4 * eps * (a * b)" by (simp add: algebra_simps)
  have "(a * b) * (1 - 4 * eps) \<le> (a * b) * ((1 - eps) * (1 - eps) * (1 - eps))"
    using ab eps_cube(2) by (rule mult_left_mono [rotated])
  also have "\<dots> = ((a * (1 - eps)) * (b * (1 - eps))) * (1 - eps)" by (simp add: algebra_simps)
  also have "\<dots> \<le> (a' * b') * (1 - eps)"
    using yl eps_cube(3) by (rule mult_right_mono)
  also have "\<dots> \<le> p" by (rule p(1))
  finally have lo: "a * b - p \<le> 4 * eps * (a * b)" by (simp add: algebra_simps)
  from up lo show ?thesis by (simp add: abs_le_iff p_def a'_def b'_def)
qed

text \<open>
  The height computed by \<open>_resize\<close> against the exact quotient: equal to it, or one
  below it when the division is exact.
\<close>

lemma new_height_floor:
  assumes w: "0 < w" and W: "0 < W"
    and hb: "h < 2 ^ 25" and Wb: "W < 2 ^ 25"
  shows "float_mul_int (int h) (to_double (of_int W / of_nat w)) = (int h * W) div int w \<or>
         (int w dvd int h * W \<and>
          float_mul_int (int h) (to_double (of_int W / of_nat w)) = (int h * W) div int w - 1)"
proof -
  define n where "n = int h * W"
  define d where "d = int w"
  define x :: rat where "x = of_int n / of_int d"
  define p where "p = to_double (to_double (of_nat h) * to_double (of_int W / of_nat w))"
  define k where "k = n div d"
  have d: "0 < d" using w by (simp add: d_def)
  have n0: "0 \<le> n" using W by (simp add: n_def)
  have nb: "n < 2 ^ 50"
  proof -
    have "int h * W < 2 ^ 25 * 2 ^ 25"
    proof (cases "h = 0")
      case True
      then show ?thesis by simp
    next
      case False
      then have "int h * W < int h * 2 ^ 25" using Wb by simp
      also have "\<dots> \<le> 2 ^ 25 * 2 ^ 25" using hb by simp
      finally show ?thesis .
    qed
    then show ?thesis by (simp add: n_def)
  qed
  have xab: "x = of_nat h * (of_int W / of_nat w)"
    by (simp add: x_def n_def d_def)
  have x0: "0 \<le> x" using n0 d by (simp add: x_def)
  have close: "\<bar>p - x\<bar> \<le> 4 * eps * x"
    unfolding p_def xab using W w by (intro product_close) auto
  have p0: "0 \<le> p"
  proof -
    have "x * (1 - 4 * eps) \<le> p" using close by (simp add: abs_le_iff algebra_simps)
    moreover have "0 \<le> x * (1 - 4 * eps)" using x0 by (simp add: eps_def)
    ultimately show ?thesis by linarith
  qed
  have nh: "float_mul_int (int h) (to_double (of_int W / of_nat w)) = \<lfloor>p\<rfloor>"
    using p0 by (simp add: float_mul_int_def int_of_float_def p_def)
  have xd: "x * of_int d = of_int n" using d by (simp add: x_def)
  have delta: "4 * eps * x * of_int d < 1 / 2"
  proof -
    have "4 * eps * x * of_int d = 4 * eps * of_int n" using xd by (simp add: mult.assoc)
    also have "\<dots> < 4 * eps * of_int (2 ^ 50)"
      using nb by (simp add: eps_def del: of_int_power of_int_numeral)
    also have "\<dots> = 1 / 2" by (simp add: eps_def)
    finally show ?thesis .
  qed
  have d1: "(1::rat) \<le> of_int d" using d by simp
  have delta': "4 * eps * x < 1 / (2 * of_int d)"
    using delta d by (simp add: field_simps)
  have dhalf: "1 / (2 * of_int d) \<le> (1 / 2 :: rat)"
    using d1 d by (simp add: field_simps)
  show ?thesis
  proof (cases "d dvd n")
    case True
    then have "x = of_int k"
      using d by (auto simp: x_def k_def)
    with close delta' dhalf have pk: "of_int k - 1 < p" "p < of_int k + 1"
      by (auto simp: abs_le_iff)
    have "\<lfloor>p\<rfloor> = k \<or> \<lfloor>p\<rfloor> = k - 1"
    proof (cases "p < of_int k")
      case True
      with pk(1) have "\<lfloor>p\<rfloor> = k - 1" by (intro floor_unique) auto
      then show ?thesis by simp
    next
      case False
      with pk(2) have "\<lfloor>p\<rfloor> = k" by (intro floor_unique) auto
      then show ?thesis by simp
    qed
    with True nh show ?thesis by (auto simp: k_def n_def d_def)
  next
    case False
    define m where "m = n mod d"
    have m: "0 < m" "m < d" using False d by (auto simp: m_def dvd_eq_mod_eq_0 intro: le_neq_trans)
    have "n = k * d + m" by (simp add: k_def m_def)
    then have xm: "x = of_int k + of_int m / of_int d"
      using d by (simp add: x_def field_simps)
    have m1: "1 / of_int d \<le> (of_int m / of_int d :: rat)"
      using m d by (simp add: divide_right_mono)
    have m2: "(of_int m / of_int d :: rat) \<le> 1 - 1 / of_int d"
    proof -
      have "(of_int m :: rat) \<le> of_int d - 1" using m by (metis of_int_1 of_int_diff of_int_le_iff zle_diff1_eq)
      then have "(of_int m / of_int d :: rat) \<le> (of_int d - 1) / of_int d"
        using d by (simp add: divide_right_mono)
      also have "\<dots> = 1 - 1 / of_int d" using d by (simp add: field_simps)
      finally show ?thesis .
    qed
    have half: "1 / (2 * of_int d) < (1 / of_int d :: rat)" using d by (simp add: field_simps)
    from close delta' have "x - 1 / (2 * of_int d) < p" "p < x + 1 / (2 * of_int d)"
      by (auto simp: abs_le_iff)
    with xm m1 m2 half have "of_int k \<le> p" "p < of_int k + 1" by linarith+
    then have "\<lfloor>p\<rfloor> = k" by (simp add: floor_unique)
    with nh show ?thesis by (simp add: k_def n_def d_def)
  qed
qed

subsection \<open>The claims\<close>

lemma floor_ratio:
  "\<lfloor>(of_nat h * of_int W / of_nat w :: rat)\<rfloor> = (int h * W) div int w"
proof -
  have "(of_nat h * of_int W / of_nat w :: rat) = of_int (int h * W) / of_int (int w)" by simp
  then show ?thesis by (simp only: floor_divide_of_int_eq)
qed

text \<open>
  C8, as amended. For an image of width \<open>w > 0\<close> and height \<open>h\<close> and a target width
  \<open>W > 0\<close> (\<open>h\<close> and \<open>W\<close> below \<open>2 ^ 25\<close>), \<open>_resize\<close> passes to \<open>cv2.resize\<close> the
  width \<open>W\<close> and the height \<open>int(h * (W / w))\<close>. That height is the exact ratio
  \<open>h * W / w\<close> truncated, not rounded to nearest; only when \<open>w\<close> divides \<open>h * W\<close> can
  the floating-point product fall below the integer and the height be one less.
  Whenever \<open>cv2.resize\<close> returns, the output has exactly the width \<open>W\<close> and that
  height, which is then at least 1.
\<close>

theorem resize_truncates:
  assumes "0 < cols img" and "0 < W" and "rows img < 2 ^ 25" and "W < 2 ^ 25"
  shows "\<exists>nh. (nh = \<lfloor>(of_nat (rows img) * of_int W / of_nat (cols img) :: rat)\<rfloor> \<or>
               (int (cols img) dvd int (rows img) * W \<and>
                nh = \<lfloor>(of_nat (rows img) * of_int W / of_nat (cols img) :: rat)\<rfloor> - 1)) \<and>
              resize alloc img W = cv2_resize alloc img (W, nh) \<and>
              (\<forall>out. resize alloc img W = Inr out \<longrightarrow>
                 0 < nh \<and> out = \<lparr>rows = nat nh, cols = nat W, channels = channels img\<rparr>)"
proof -
  define nh where "nh = float_mul_int (int (rows img)) (to_double (of_int W / of_nat (cols img)))"
  have fl: "nh = \<lfloor>(of_nat (rows img) * of_int W / of_nat (cols img) :: rat)\<rfloor> \<or>
        (int (cols img) dvd int (rows img) * W \<and>
         nh = \<lfloor>(of_nat (rows img) * of_int W / of_nat (cols img) :: rat)\<rfloor> - 1)"
    using new_height_floor [OF assms] by (simp only: floor_ratio nh_def)
  have call: "resize alloc img W = cv2_resize alloc img (W, nh)"
    using assms(1) by (simp add: resize_def truediv_def Let_def nh_def)
  have ret: "0 < nh \<and> out = \<lparr>rows = nat nh, cols = nat W, channels = channels img\<rparr>"
    if "resize alloc img W = Inr out" for out
    using that unfolding call
    by (auto simp: cv2_resize_def Let_def split: if_splits)
  from fl call ret show ?thesis by blast
qed

text \<open>On a machine that can allocate every array:\<close>

lemma resize_example:
  "resize (\<lambda>a. True) \<lparr>rows = 600, cols = 1000, channels = 3\<rparr> 800
     = Inr \<lparr>rows = 480, cols = 800, channels = 3\<rparr>"
  by code_simp

theorem resize_truncates_witness:
  "0 < cols \<lparr>rows = 600, cols = 1000, channels = 3\<rparr> \<and> (0::int) < 800 \<and>
   rows \<lparr>rows = 600, cols = 1000, channels = 3\<rparr> < 2 ^ 25 \<and> (800::int) < 2 ^ 25 \<and>
   \<lfloor>(of_nat 600 * of_int 800 / of_nat 1000 :: rat)\<rfloor> = 480 \<and>
   resize (\<lambda>a. True) \<lparr>rows = 600, cols = 1000, channels = 3\<rparr> 800
     = cv2_resize (\<lambda>a. True) \<lparr>rows = 600, cols = 1000, channels = 3\<rparr> (800, 480) \<and>
   resize (\<lambda>a. True) \<lparr>rows = 600, cols = 1000, channels = 3\<rparr> 800
     = Inr \<lparr>rows = 480, cols = 800, channels = 3\<rparr>"
proof -
  have h1: "0 < cols \<lparr>rows = 600, cols = 1000, channels = 3\<rparr>" by simp
  have h2: "(0::int) < 800" by simp
  have h3: "rows \<lparr>rows = 600, cols = 1000, channels = 3\<rparr> < 2 ^ 25" by simp
  have h4: "(800::int) < 2 ^ 25" by simp
  let ?img = "\<lparr>rows = 600, cols = 1000, channels = 3\<rparr>"
  let ?alloc = "\<lambda>a :: ndarray. True"
  from resize_truncates [OF h1 h2 h3 h4, of ?alloc] obtain nh where
    nh: "nh = \<lfloor>(of_nat (rows ?img) * of_int 800 / of_nat (cols ?img) :: rat)\<rfloor> \<or>
         (int (cols ?img) dvd int (rows ?img) * 800 \<and>
          nh = \<lfloor>(of_nat (rows ?img) * of_int 800 / of_nat (cols ?img) :: rat)\<rfloor> - 1)" and
    call: "resize ?alloc ?img 800 = cv2_resize ?alloc ?img (800, nh)" and
    ret: "\<forall>out. resize ?alloc ?img 800 = Inr out \<longrightarrow>
            0 < nh \<and> out = \<lparr>rows = nat nh, cols = nat 800, channels = channels ?img\<rparr>"
    by blast
  from nh have "nh = 480 \<or> nh = 479" by simp
  moreover from ret resize_example have "nat nh = 480" by simp
  ultimately have "nh = 480" by auto
  with call resize_example h1 h2 h3 h4 show ?thesis by simp
qed

text \<open>
  C8 as stated fails: a 3200 by 7 image resized to the width 800 gets the height 1,
  and \<open>7 * 800 / 3200 = 1.75\<close> rounds to 2.
\<close>

theorem resize_rounding_counterexample:
  "resize (\<lambda>a. True) \<lparr>rows = 7, cols = 3200, channels = 3\<rparr> 800
     = Inr \<lparr>rows = 1, cols = 800, channels = 3\<rparr> \<and>
   round (7 * 800 / 3200 :: rat) = 2"
  by code_simp

text \<open>The height one below the exact ratio: a square image does not stay square.\<close>

lemma resize_one_less:
  "resize (\<lambda>a. True) \<lparr>rows = 97, cols = 97, channels = 3\<rparr> 800
     = Inr \<lparr>rows = 799, cols = 800, channels = 3\<rparr>"
  by code_simp

text \<open>
  C9. With the preprocessor of \<open>main.py\<close>, a three-channel image one pixel high and
  1600 wide is a valid image buffer, and \<open>preprocess\<close> raises on it: the height asked
  of \<open>cv2.resize\<close> is \<open>int(1 * 0.5) = 0\<close>.
\<close>

theorem preprocess_flat_image:
  "preprocess imread alloc preprocessor (Array \<lparr>rows = 1, cols = 1600, channels = 3\<rparr>) = Inl Cv2Error"
proof -
  have "float_mul_int (int (rows \<lparr>rows = 1, cols = 1600, channels = 3\<rparr>))
          (to_double (of_int 800 / of_int (int (cols \<lparr>rows = 1, cols = 1600, channels = 3\<rparr>)))) = 0"
    by code_simp
  then have "resize alloc \<lparr>rows = 1, cols = 1600, channels = 3\<rparr> 800 = Inl Cv2Error"
    unfolding resize_def truediv_def cv2_resize_def Let_def fits_int_def
    by simp
  then show ?thesis
    by (simp add: preprocess_def load_image_def preprocessor_def)
qed

text \<open>A buffer of width 0 is rejected by the division.\<close>

lemma preprocess_zero_width:
  "preprocess imread alloc preprocessor (Array \<lparr>rows = 10, cols = 0, channels = 3\<rparr>)
     = Inl ZeroDivisionError"
  by (simp add: preprocess_def load_image_def preprocessor_def resize_def truediv_def)

text \<open>
  Every other valid image passes when its arrays can be allocated: with no resize, or
  with a positive target width and a height of at least 1 asked of \<open>cv2.resize\<close>, both
  C \<open>int\<close>s, \<open>preprocess\<close> returns a one-channel image.
\<close>

lemma preprocess_returns:
  assumes "0 < rows img" and "0 < cols img" and "channels img = 3"
    and "\<And>a. alloc a"
    and "resize_width self = None \<or> resize_width self = Some 0 \<or>
         (\<exists>W. resize_width self = Some W \<and> 0 < W \<and> fits_int W \<and>
              0 < float_mul_int (int (rows img)) (to_double (of_int W / of_nat (cols img))) \<and>
              fits_int (float_mul_int (int (rows img)) (to_double (of_int W / of_nat (cols img)))))"
  shows "\<exists>out. preprocess imread alloc self (Array img) = Inr out \<and> channels out = 1"
  using assms
  by (auto simp: preprocess_def load_image_def resize_def truediv_def cv2_resize_def
        cv2_cvtColor_BGR2GRAY_def cv2_GaussianBlur_def cv2_adaptiveThreshold_def Let_def)

end
